theory Spec2Isabelle
  imports Main "HOL-Library.AList"
begin

section \<open>Python strings\<close>

text \<open>
  A Python \<^verbatim>\<open>str\<close> is modelled as an Isabelle \<^typ>\<open>string\<close>: a list of
  characters, each a code point below 256. Telegram handles and the decimal chat ids used
  as registry keys are ASCII. \<^verbatim>\<open>len\<close> is \<^const>\<open>length\<close> and
  \<^verbatim>\<open>+\<close> on strings is \<open>@\<close>.
\<close>

definition ord :: "char \<Rightarrow> nat" where
  "ord c = of_char c"

definition chr :: "nat \<Rightarrow> char" where
  "chr n = char_of n"

text \<open>\<^verbatim>\<open>sep.join(xs)\<close>.\<close>

fun join :: "string \<Rightarrow> string list \<Rightarrow> string" where
  "join sep [] = []"
| "join sep [x] = x"
| "join sep (x # y # ys) = x @ sep @ join sep (y # ys)"

text \<open>
  \<^verbatim>\<open>s.lower()\<close>: on code points below 256 the cased letters are A-Z and the
  Latin-1 capitals 0xC0-0xDE (0xD7, the multiplication sign, is not a letter); each maps
  to the code point 32 above it.
\<close>

definition lower_char :: "char \<Rightarrow> char" where
  "lower_char c =
     (if (0x41 \<le> ord c \<and> ord c \<le> 0x5A) \<or> (0xC0 \<le> ord c \<and> ord c \<le> 0xDE \<and> ord c \<noteq> 0xD7)
      then chr (ord c + 32) else c)"

definition lower :: "string \<Rightarrow> string" where
  "lower s = map lower_char s"

text \<open>\<^verbatim>\<open>sub in s\<close> on strings: \<open>sub\<close> occurs in \<open>s\<close> as a contiguous run.\<close>

fun str_in :: "string \<Rightarrow> string \<Rightarrow> bool" where
  "str_in sub [] = (sub = [])"
| "str_in sub (c # cs) = (take (length sub) (c # cs) = sub \<or> str_in sub cs)"

text \<open>
  \<^verbatim>\<open>s.rstrip()\<close> removes trailing whitespace, the characters for which
  \<^verbatim>\<open>str.isspace\<close> holds: 0x09-0x0D, 0x1C-0x20, 0x85 and 0xA0.
\<close>

definition isspace :: "char \<Rightarrow> bool" where
  "isspace c =
     ((0x09 \<le> ord c \<and> ord c \<le> 0x0D) \<or> (0x1C \<le> ord c \<and> ord c \<le> 0x20)
      \<or> ord c = 0x85 \<or> ord c = 0xA0)"

definition rstrip :: "string \<Rightarrow> string" where
  "rstrip s = rev (dropWhile isspace (rev s))"

text \<open>\<^verbatim>\<open>str(n)\<close> for an integer: its decimal digits, with a minus sign when negative.\<close>

definition digit_char :: "nat \<Rightarrow> char" where
  "digit_char d = ''0123456789'' ! d"

function str_nat :: "nat \<Rightarrow> string" where
  "str_nat n = (if n < 10 then [digit_char n] else str_nat (n div 10) @ [digit_char (n mod 10)])"
  by pat_completeness auto
termination
  by (relation "measure (\<lambda>n. n)") auto

declare str_nat.simps [simp del]

definition str :: "int \<Rightarrow> string" where
  "str i = (if i < 0 then CHR ''-'' # str_nat (nat (- i)) else str_nat (nat i))"

section \<open>The member registry and its JSON file\<close>

text \<open>
  The registry is a Python \<^verbatim>\<open>dict\<close> from chat-id strings to lists of usernames.
  A dict keeps its keys in insertion order and holds each key once; it is modelled as an
  association list, and the lists that are dicts are those with
  \<open>distinct (map fst d)\<close>. \<^verbatim>\<open>d[k] = v\<close> is \<^const>\<open>AList.update\<close> (the value
  is replaced in place, a new key goes to the end), \<^verbatim>\<open>d[k]\<close> and
  \<^verbatim>\<open>k in d\<close> read \<^const>\<open>map_of\<close>.
\<close>

type_synonym registry = "(string \<times> string list) list"

text \<open>\<^verbatim>\<open>dict(pairs)\<close>: later pairs overwrite earlier ones with the same key.\<close>

definition dict :: "('k \<times> 'v) list \<Rightarrow> ('k \<times> 'v) list" where
  "dict pairs = foldl (\<lambda>d kv. AList.update (fst kv) (snd kv) d) [] pairs"

text \<open>\<^verbatim>\<open>d.get(k, default)\<close>.\<close>

definition dict_get :: "('k \<times> 'v) list \<Rightarrow> 'k \<Rightarrow> 'v \<Rightarrow> 'v" where
  "dict_get d k dflt = (case map_of d k of None \<Rightarrow> dflt | Some v \<Rightarrow> v)"

subsection \<open>Writing: \<^verbatim>\<open>json.dump(members, f, indent=4)\<close>\<close>

text \<open>
  The text the standard library's encoder writes for a registry: strings are escaped to
  ASCII, containers are broken over lines indented by four spaces per level, items are
  separated by a comma and keys from values by a colon and a space. An empty container
  is written without a line break.
\<close>

definition hex_digit :: "nat \<Rightarrow> char" where
  "hex_digit d = ''0123456789abcdef'' ! d"

definition ESCAPE_DCT :: "char \<Rightarrow> string" where
  "ESCAPE_DCT c =
     (if c = CHR 0x5C then [CHR 0x5C, CHR 0x5C]
      else if c = CHR 0x22 then [CHR 0x5C, CHR 0x22]
      else if c = CHR 0x08 then [CHR 0x5C, CHR ''b'']
      else if c = CHR 0x0C then [CHR 0x5C, CHR ''f'']
      else if c = CHR 0x0A then [CHR 0x5C, CHR ''n'']
      else if c = CHR 0x0D then [CHR 0x5C, CHR ''r'']
      else if c = CHR 0x09 then [CHR 0x5C, CHR ''t'']
      else if 0x20 \<le> ord c \<and> ord c \<le> 0x7E then [c]
      else [CHR 0x5C, CHR ''u'', CHR ''0'', CHR ''0'',
            hex_digit (ord c div 16), hex_digit (ord c mod 16)])"

definition encode_basestring_ascii :: "string \<Rightarrow> string" where
  "encode_basestring_ascii s = [CHR 0x22] @ concat (map ESCAPE_DCT s) @ [CHR 0x22]"

definition newline_indent :: "nat \<Rightarrow> string" where
  "newline_indent level = CHR 0x0A # replicate (4 * level) CHR '' ''"

definition dumps_list :: "string list \<Rightarrow> string" where
  "dumps_list xs =
     (if xs = [] then ''[]''
      else ''['' @ newline_indent 2
           @ join ('','' @ newline_indent 2) (map encode_basestring_ascii xs)
           @ newline_indent 1 @ '']'')"

definition dumps_item :: "string \<times> string list \<Rightarrow> string" where
  "dumps_item kv = encode_basestring_ascii (fst kv) @ '': '' @ dumps_list (snd kv)"

definition json_dumps :: "registry \<Rightarrow> string" where
  "json_dumps d =
     (if d = [] then ''{}''
      else ''{'' @ newline_indent 1
           @ join ('','' @ newline_indent 1) (map dumps_item d)
           @ newline_indent 0 @ ''}'')"

subsection \<open>Reading: \<^verbatim>\<open>json.load(f)\<close>\<close>

text \<open>
  The standard library's decoder on the texts that denote a registry: an object whose
  values are arrays of strings, with optional whitespace between the tokens and nothing
  but whitespace after the object. Duplicate keys are merged as \<^const>\<open>dict\<close> does.
  \<open>None\<close> stands for \<^verbatim>\<open>JSONDecodeError\<close>. A text holding JSON of another
  shape, or an escape of a code point from 256 on, is outside the data model and is
  read as \<open>None\<close> too.
\<close>

definition is_ws :: "char \<Rightarrow> bool" where
  "is_ws c = (c = CHR '' '' \<or> c = CHR 0x09 \<or> c = CHR 0x0A \<or> c = CHR 0x0D)"

definition skip_ws :: "string \<Rightarrow> string" where
  "skip_ws s = dropWhile is_ws s"

definition hex_val :: "char \<Rightarrow> nat option" where
  "hex_val c =
     (if ord CHR ''0'' \<le> ord c \<and> ord c \<le> ord CHR ''9'' then Some (ord c - ord CHR ''0'')
      else if ord CHR ''a'' \<le> ord c \<and> ord c \<le> ord CHR ''f'' then Some (ord c - ord CHR ''a'' + 10)
      else if ord CHR ''A'' \<le> ord c \<and> ord c \<le> ord CHR ''F'' then Some (ord c - ord CHR ''A'' + 10)
      else None)"

fun decode_uXXXX :: "string \<Rightarrow> nat option" where
  "decode_uXXXX (a # b # c # d # r) =
     (case (hex_val a, hex_val b, hex_val c, hex_val d) of
        (Some x, Some y, Some z, Some w) \<Rightarrow> Some (((x * 16 + y) * 16 + z) * 16 + w)
      | _ \<Rightarrow> None)"
| "decode_uXXXX _ = None"

definition BACKSLASH :: "char \<Rightarrow> char option" where
  "BACKSLASH e =
     (if e = CHR 0x22 then Some (CHR 0x22)
      else if e = CHR 0x5C then Some (CHR 0x5C)
      else if e = CHR ''/'' then Some (CHR ''/'')
      else if e = CHR ''b'' then Some (CHR 0x08)
      else if e = CHR ''f'' then Some (CHR 0x0C)
      else if e = CHR ''n'' then Some (CHR 0x0A)
      else if e = CHR ''r'' then Some (CHR 0x0D)
      else if e = CHR ''t'' then Some (CHR 0x09)
      else None)"

definition prepend :: "char \<Rightarrow> (string \<times> string) option \<Rightarrow> (string \<times> string) option" where
  "prepend c r = (case r of None \<Rightarrow> None | Some (s, rest) \<Rightarrow> Some (c # s, rest))"

fun scanstring :: "string \<Rightarrow> (string \<times> string) option" where
  "scanstring [] = None"
| "scanstring (c # cs) =
     (if c = CHR 0x22 then Some ([], cs)
      else if c = CHR 0x5C then
        (case cs of
           [] \<Rightarrow> None
         | e # r \<Rightarrow>
             if e = CHR ''u'' then
               (case decode_uXXXX r of
                  None \<Rightarrow> None
                | Some n \<Rightarrow> if n < 256 then prepend (chr n) (scanstring (drop 4 r)) else None)
             else
               (case BACKSLASH e of
                  None \<Rightarrow> None
                | Some ch \<Rightarrow> prepend ch (scanstring r)))
      else if ord c < 0x20 then None
      else prepend c (scanstring cs))"

lemma scanstring_length: "scanstring s = Some (x, r) \<Longrightarrow> length r < length s"
proof (induction s arbitrary: x r rule: scanstring.induct)
  case 1
  then show ?case by simp
next
  case (2 c cs)
  then show ?case
    by (auto simp: prepend_def split: if_splits list.splits option.splits prod.splits) fastforce+
qed


lemma skip_ws_length: "length (skip_ws s) \<le> length s"
  by (simp add: skip_ws_def length_dropWhile_le)

function parse_elements :: "string \<Rightarrow> (string list \<times> string) option" where
  "parse_elements s =
     (case s of
        [] \<Rightarrow> None
      | q # r \<Rightarrow>
          if q \<noteq> CHR 0x22 then None
          else
            (case scanstring r of
               None \<Rightarrow> None
             | Some (x, r1) \<Rightarrow>
                 (case skip_ws r1 of
                    [] \<Rightarrow> None
                  | d # r2 \<Rightarrow>
                      if d = CHR '']'' then Some ([x], r2)
                      else if d = CHR '','' then
                        (case parse_elements (skip_ws r2) of
                           None \<Rightarrow> None
                         | Some (xs, r3) \<Rightarrow> Some (x # xs, r3))
                      else None)))"
  by pat_completeness auto
termination
proof (relation "measure length", goal_cases)
  case 1
  show ?case by simp
next
  case (2 s q r y x r1 d r2)
  have "length r1 < length r" using 2 scanstring_length by auto
  moreover have "length (d # r2) \<le> length r1"
    using 2 skip_ws_length [of r1] by simp
  moreover have "length (skip_ws r2) \<le> length r2" by (rule skip_ws_length)
  ultimately show ?case using 2 by simp
qed

declare parse_elements.simps [simp del]

definition JSONArray :: "string \<Rightarrow> (string list \<times> string) option" where
  "JSONArray s =
     (case skip_ws s of
        [] \<Rightarrow> None
      | c # r \<Rightarrow> if c = CHR '']'' then Some ([], r) else parse_elements (c # r))"

lemma parse_elements_length: "parse_elements s = Some (xs, r) \<Longrightarrow> length r < length s"
proof (induction s arbitrary: xs r rule: parse_elements.induct)
  case (1 s)
  note prems = "1.prems" [unfolded parse_elements.simps [of s]]
  show ?case
  proof (cases s)
    case Nil
    with prems show ?thesis by simp
  next
    case (Cons q t)
    with prems obtain x r1 where q: "q = CHR 0x22" and sc: "scanstring t = Some (x, r1)"
      by (auto split: if_splits option.splits)
    have l1: "length r1 < length t" using sc by (rule scanstring_length)
    from prems Cons q sc obtain d r2 where sk: "skip_ws r1 = d # r2"
      by (auto split: list.splits)
    have l2: "length (d # r2) \<le> length r1" using sk skip_ws_length [of r1] by simp
    show ?thesis
    proof (cases "d = CHR '']''")
      case True
      then have "r = r2" using prems Cons q sc sk by simp
      then show ?thesis using l1 l2 Cons by simp
    next
      case False
      then have dc: "d = CHR '',''" using prems Cons q sc sk by (auto split: if_splits)
      from prems Cons q sc sk dc False obtain ys where
        pe: "parse_elements (skip_ws r2) = Some (ys, r)"
        by (auto split: option.splits)
      have "length r < length (skip_ws r2)"
        using "1.IH" [OF Cons _ sc refl sk False dc pe] q by simp
      then show ?thesis using l1 l2 Cons skip_ws_length [of r2] by simp
    qed
  qed
qed

lemma JSONArray_length: "JSONArray s = Some (xs, r) \<Longrightarrow> length r < length s"
  unfolding JSONArray_def
  using skip_ws_length [of s]
  by (auto split: list.splits if_splits dest!: parse_elements_length)

function parse_pairs :: "string \<Rightarrow> (registry \<times> string) option" where
  "parse_pairs s =
     (case s of
        [] \<Rightarrow> None
      | q # r \<Rightarrow>
          if q \<noteq> CHR 0x22 then None
          else
            (case scanstring r of
               None \<Rightarrow> None
             | Some (key, r1) \<Rightarrow>
                 (case skip_ws r1 of
                    [] \<Rightarrow> None
                  | c # r2 \<Rightarrow>
                      if c \<noteq> CHR '':'' then None
                      else
                        (case skip_ws r2 of
                           [] \<Rightarrow> None
                         | b # r3 \<Rightarrow>
                             if b \<noteq> CHR ''['' then None
                             else
                               (case JSONArray r3 of
                                  None \<Rightarrow> None
                                | Some (v, r4) \<Rightarrow>
                                    (case skip_ws r4 of
                                       [] \<Rightarrow> None
                                     | d # r5 \<Rightarrow>
                                         if d = CHR ''}'' then Some ([(key, v)], r5)
                                         else if d = CHR '','' then
                                           (case parse_pairs (skip_ws r5) of
                                              None \<Rightarrow> None
                                            | Some (ps, r6) \<Rightarrow> Some ((key, v) # ps, r6))
                                         else None))))))"
  by pat_completeness auto
termination
proof (relation "measure length", goal_cases)
  case 1
  show ?case by simp
next
  case (2 s q r y key r1 c r2 b r3 z v r4 d r5)
  have "length r1 < length r" using 2 scanstring_length by auto
  moreover have "length (c # r2) \<le> length r1" using 2 skip_ws_length [of r1] by simp
  moreover have "length (b # r3) \<le> length r2" using 2 skip_ws_length [of r2] by simp
  moreover have "length r4 < length r3" using 2 JSONArray_length by auto
  moreover have "length (d # r5) \<le> length r4" using 2 skip_ws_length [of r4] by simp
  moreover have "length (skip_ws r5) \<le> length r5" by (rule skip_ws_length)
  ultimately show ?case using 2 by simp
qed

declare parse_pairs.simps [simp del]

definition JSONObject :: "string \<Rightarrow> (registry \<times> string) option" where
  "JSONObject s =
     (case skip_ws s of
        [] \<Rightarrow> None
      | c # r \<Rightarrow>
          if c = CHR ''}'' then Some ([], r)
          else (case parse_pairs (c # r) of
                  None \<Rightarrow> None
                | Some (pairs, r') \<Rightarrow> Some (dict pairs, r')))"

definition json_loads :: "string \<Rightarrow> registry option" where
  "json_loads s =
     (case skip_ws s of
        [] \<Rightarrow> None
      | c # r \<Rightarrow>
          if c \<noteq> CHR ''{'' then None
          else (case JSONObject r of
                  None \<Rightarrow> None
                | Some (obj, r') \<Rightarrow> if skip_ws r' = [] then Some obj else None))"


section \<open>Telegram objects\<close>

record chat =
  chat_type :: string
  chat_id :: int

record user =
  username :: "string option"
  is_bot :: bool

record chat_member =
  user :: user

record message =
  chat :: chat
  from_user :: "user option"
  message_text :: "string option"
  message_id :: int
  message_thread_id :: "int option"
  is_topic_message :: bool

section \<open>The world the handlers run in\<close>

text \<open>
  Everything a handler does besides returning is an \<open>event\<close> appended to the
  \<open>trace\<close>: opening the registry file for reading or writing it, a platform query, a
  reply that the platform accepted, a pause, a log line.
\<close>

datatype event =
    ReadMembersFile
  | WriteMembersFile string
  | GetChatAdministrators int
  | Reply string int "int option"
  | Sleep nat
  | LogInfo string
  | LogError string

datatype error =
    TelegramError string
  | JSONDecodeError
  | AttributeError
  | KeyError

text \<open>
  \<open>members_file\<close> is the text of \<^verbatim>\<open>members.json\<close>, \<open>None\<close> while the file does
  not exist. The platform is scripted: \<open>administrators\<close> gives, per chat id, what
  \<^verbatim>\<open>get_chat_administrators\<close> answers (\<open>Inl\<close> a \<^verbatim>\<open>TelegramError\<close> with that
  message), and \<open>send_script\<close> lists the outcomes of the coming \<^verbatim>\<open>reply_text\<close>
  calls in order (\<open>None\<close> accepted, \<open>Some msg\<close> a \<^verbatim>\<open>TelegramError\<close>); calls
  beyond the script are accepted. The file system itself does not fail.
\<close>

record world =
  members_file :: "string option"
  administrators :: "int \<Rightarrow> string + chat_member list"
  send_script :: "string option list"
  trace :: "event list"

definition emit :: "event \<Rightarrow> world \<Rightarrow> world" where
  "emit e w = w\<lparr>trace := trace w @ [e]\<rparr>"

section \<open>The member store\<close>

definition load_members :: "world \<Rightarrow> (error + registry) \<times> world" where
  "load_members w =
     (case members_file w of
        None \<Rightarrow> (Inr [], emit ReadMembersFile w)
      | Some content \<Rightarrow>
          (case json_loads content of
             None \<Rightarrow> (Inl JSONDecodeError, emit ReadMembersFile w)
           | Some members \<Rightarrow> (Inr members, emit ReadMembersFile w)))"

definition save_members :: "registry \<Rightarrow> world \<Rightarrow> world" where
  "save_members members w =
     emit (WriteMembersFile (json_dumps members)) (w\<lparr>members_file := Some (json_dumps members)\<rparr>)"

section \<open>Platform calls\<close>

text \<open>
  \<^verbatim>\<open>message.reply_text(body, reply_to_message_id=message.message_id,
  message_thread_id=message.message_thread_id if message.is_topic_message else None)\<close>:
  every reply of the source is sent with these two arguments.
\<close>

definition reply_text :: "message \<Rightarrow> string \<Rightarrow> world \<Rightarrow> (error + unit) \<times> world" where
  "reply_text m body w =
     (case send_script w of
        Some e # script \<Rightarrow> (Inl (TelegramError e), w\<lparr>send_script := script\<rparr>)
      | _ \<Rightarrow>
          (Inr (),
           emit (Reply body (message_id m)
                   (if is_topic_message m then message_thread_id m else None))
             (w\<lparr>send_script := tl (send_script w)\<rparr>)))"

definition get_chat_administrators :: "int \<Rightarrow> world \<Rightarrow> (error + chat_member list) \<times> world" where
  "get_chat_administrators cid w =
     (case administrators w cid of
        Inl e \<Rightarrow> (Inl (TelegramError e), emit (GetChatAdministrators cid) w)
      | Inr admins \<Rightarrow> (Inr admins, emit (GetChatAdministrators cid) w))"

section \<open>\<^verbatim>\<open>track_members\<close>\<close>

definition track_members :: "message \<Rightarrow> world \<Rightarrow> (error + unit) \<times> world" where
  "track_members m w =
     (if chat_type (chat m) \<in> set [''group'', ''supergroup''] then
        (case from_user m of
           None \<Rightarrow> (Inl AttributeError, w)
         | Some u \<Rightarrow>
             (case username u of
                None \<Rightarrow> (Inr (), w)
              | Some name \<Rightarrow>
                  if name \<noteq> [] \<and> \<not> is_bot u then
                    (case load_members w of
                       (Inl e, w1) \<Rightarrow> (Inl e, w1)
                     | (Inr members0, w1) \<Rightarrow>
                         let cid = str (chat_id (chat m));
                             members = (if map_of members0 cid = None
                                        then AList.update cid [] members0 else members0)
                         in (case map_of members cid of
                               None \<Rightarrow> (Inl KeyError, w1)
                             | Some names \<Rightarrow>
                                 if name \<notin> set names then
                                   (Inr (),
                                    emit (LogInfo (''Added @'' @ name
                                            @ '' to members list for chat '' @ cid))
                                      (save_members (AList.update cid (names @ [name]) members) w1))
                                 else (Inr (), w1)))
                  else (Inr (), w)))
      else (Inr (), w))"

section \<open>\<^verbatim>\<open>tag_all\<close>\<close>

text \<open>Line 66: the stored handles of the chat but the bot's own, each behind an at sign.\<close>

definition stored_tags :: "string \<Rightarrow> registry \<Rightarrow> string \<Rightarrow> string list" where
  "stored_tags bot_username members cid =
     map (\<lambda>username. CHR ''@'' # username)
       (filter (\<lambda>username. username \<noteq> bot_username) (dict_get members cid []))"

text \<open>
  Line 71: the administrators that are not bots, have a handle that is neither absent
  nor empty, and are not the bot itself.
\<close>

definition taggable_admin :: "string \<Rightarrow> chat_member \<Rightarrow> bool" where
  "taggable_admin bot_username admin =
     (\<not> is_bot (user admin)
      \<and> (case username (user admin) of
            None \<Rightarrow> False
          | Some name \<Rightarrow> name \<noteq> [] \<and> name \<noteq> bot_username))"

definition admin_tags :: "string \<Rightarrow> chat_member list \<Rightarrow> string list" where
  "admin_tags bot_username admins =
     concat (map (\<lambda>admin. case username (user admin) of
                             None \<Rightarrow> []
                           | Some name \<Rightarrow> [CHR ''@'' # name])
               (filter (taggable_admin bot_username) admins))"

definition max_length :: nat where
  "max_length = 4000"

text \<open>Lines 87-96: the loop over the tags, with \<open>parts\<close> and \<open>current_part\<close> as its state.\<close>

fun split_loop :: "string list \<Rightarrow> string list \<Rightarrow> string \<Rightarrow> string list \<times> string" where
  "split_loop [] parts current_part = (parts, current_part)"
| "split_loop (tag # tags) parts current_part =
     (if length current_part + length tag + 1 \<le> max_length
      then split_loop tags parts (current_part @ tag @ [CHR 0x0A])
      else split_loop tags (parts @ [rstrip current_part]) (tag @ [CHR 0x0A]))"

definition split_parts :: "string list \<Rightarrow> string list" where
  "split_parts tagged_members =
     (case split_loop tagged_members [] [] of
        (parts, current_part) \<Rightarrow>
          if current_part \<noteq> [] then parts @ [rstrip current_part] else parts)"

text \<open>Lines 98-105: one reply per part, each followed by a pause of one second.\<close>

fun send_parts :: "message \<Rightarrow> string list \<Rightarrow> world \<Rightarrow> (error + unit) \<times> world" where
  "send_parts m [] w = (Inr (), w)"
| "send_parts m (part # parts) w =
     (case reply_text m part w of
        (Inl e, w1) \<Rightarrow> (Inl e, w1)
      | (Inr _, w1) \<Rightarrow> send_parts m parts (emit (Sleep 1) w1))"

text \<open>Lines 80-113: what both the stored list and the administrators' list end in.\<close>

definition send_tagged :: "message \<Rightarrow> string list \<Rightarrow> world \<Rightarrow> (error + unit) \<times> world" where
  "send_tagged m tagged_members w =
     (let tagged_message = join [CHR 0x0A] tagged_members
      in case (if length tagged_message > max_length
               then send_parts m (split_parts tagged_members) w
               else reply_text m tagged_message w) of
           (Inl e, w1) \<Rightarrow> (Inl e, w1)
         | (Inr _, w1) \<Rightarrow>
             (Inr (),
              emit (LogInfo (''Tagged '' @ str (int (length tagged_members))
                      @ '' members in chat '' @ str (chat_id (chat m)))) w1))"

text \<open>Lines 63-113: the body of the \<^verbatim>\<open>try\<close>.\<close>

definition tag_all_try :: "string \<Rightarrow> message \<Rightarrow> world \<Rightarrow> (error + unit) \<times> world" where
  "tag_all_try bot_username m w =
     (case load_members w of
        (Inl e, w1) \<Rightarrow> (Inl e, w1)
      | (Inr members, w1) \<Rightarrow>
          let tagged_members = stored_tags bot_username members (str (chat_id (chat m)))
          in if tagged_members = [] then
               (case get_chat_administrators (chat_id (chat m)) w1 of
                  (Inl e, w2) \<Rightarrow> (Inl e, w2)
                | (Inr admins, w2) \<Rightarrow>
                    let tagged_admins = admin_tags bot_username admins
                    in if tagged_admins = [] then
                         reply_text m
                           ''No members or admins with usernames found to tag! Users must send a message to be included.''
                           w2
                       else send_tagged m tagged_admins w2)
             else send_tagged m tagged_members w1)"

text \<open>
  The handler. \<open>bot_username\<close> is \<^verbatim>\<open>context.bot.username\<close>. Only a
  \<^verbatim>\<open>TelegramError\<close> is caught; the reply in the handler of the exception is itself a
  platform call.
\<close>

definition tag_all :: "string \<Rightarrow> message \<Rightarrow> world \<Rightarrow> (error + unit) \<times> world" where
  "tag_all bot_username m w =
     (if chat_type (chat m) \<in> set [''group'', ''supergroup''] then
        (case message_text m of
           None \<Rightarrow> (Inr (), w)
         | Some txt \<Rightarrow>
             if txt = [] then (Inr (), w)
             else if str_in (lower bot_username) (lower txt) then
               (case tag_all_try bot_username m w of
                  (Inl (TelegramError e), w1) \<Rightarrow>
                    reply_text m
                      ''Sorry, I couldn't tag everyone. Please ensure I'm an admin and try again.''
                      (emit (LogError (''Error tagging members: '' @ e)) w1)
                | (r, w1) \<Rightarrow> (r, w1))
             else track_members m w)
      else (Inr (), w))"

section \<open>Observations on a trace\<close>

fun reply_bodies :: "event list \<Rightarrow> string list" where
  "reply_bodies [] = []"
| "reply_bodies (Reply body reply_to thread # es) = body # reply_bodies es"
| "reply_bodies (e # es) = reply_bodies es"

fun file_writes :: "event list \<Rightarrow> string list" where
  "file_writes [] = []"
| "file_writes (WriteMembersFile content # es) = content # file_writes es"
| "file_writes (e # es) = file_writes es"

fun file_reads :: "event list \<Rightarrow> nat" where
  "file_reads [] = 0"
| "file_reads (ReadMembersFile # es) = Suc (file_reads es)"
| "file_reads (e # es) = file_reads es"

text \<open>What \<^const>\<open>load_members\<close> would return: the registry the file holds.\<close>

definition stored_registry :: "world \<Rightarrow> registry option" where
  "stored_registry w = (case members_file w of None \<Rightarrow> Some [] | Some content \<Rightarrow> json_loads content)"

section \<open>Concrete inputs\<close>

definition example_registry :: registry where
  "example_registry = [(''123'', [''alice'', ''bob'', ''carol'']), (''-1001'', [])]"

definition fresh_world :: world where
  "fresh_world = \<lparr>members_file = None, administrators = (\<lambda>cid. Inr []), send_script = [], trace = []\<rparr>"

definition group_chat :: chat where
  "group_chat = \<lparr>chat_type = ''group'', chat_id = 123\<rparr>"

definition private_chat :: chat where
  "private_chat = \<lparr>chat_type = ''private'', chat_id = 55\<rparr>"

definition person :: "string \<Rightarrow> user" where
  "person name = \<lparr>username = Some name, is_bot = False\<rparr>"

definition message_in :: "chat \<Rightarrow> user \<Rightarrow> int \<Rightarrow> string \<Rightarrow> message" where
  "message_in c u n txt =
     \<lparr>chat = c, from_user = Some u, message_text = Some txt, message_id = n,
      message_thread_id = None, is_topic_message = False\<rparr>"

definition world_with :: "registry \<Rightarrow> world" where
  "world_with members = fresh_world\<lparr>members_file := Some (json_dumps members)\<rparr>"

definition mention_message :: message where
  "mention_message = message_in group_chat (person ''zed'') 7 ''hey @MyBot tag everyone''"

definition three_admins :: "chat_member list" where
  "three_admins =
     [\<lparr>user = \<lparr>username = Some ''dave'', is_bot = False\<rparr>\<rparr>,
      \<lparr>user = \<lparr>username = Some ''helperbot'', is_bot = True\<rparr>\<rparr>,
      \<lparr>user = \<lparr>username = None, is_bot = False\<rparr>\<rparr>]"

definition refusing :: "string list \<Rightarrow> world \<Rightarrow> world" where
  "refusing errors w = w\<lparr>send_script := map Some errors\<rparr>"




section \<open>The groups behind the parts\<close>



section \<open>Steps that leave the registry file alone\<close>

text \<open>
  A device of the proofs: \<open>quiet w w'\<close> holds when \<open>w'\<close> has the file of \<open>w\<close> and
  its trace extends the trace of \<open>w\<close> by events that neither open nor write the file.
\<close>

definition quiet :: "world \<Rightarrow> world \<Rightarrow> bool" where
  "quiet w w' =
     (members_file w' = members_file w
      \<and> (\<exists>es. trace w' = trace w @ es \<and> file_writes es = [] \<and> file_reads es = 0))"

section \<open>The JSON file round trip\<close>

lemma ord_less_256: "ord c < 256"
  by (simp add: ord_def)

lemma chr_ord: "chr (ord c) = c"
  by (simp add: chr_def ord_def)

lemma hex_val_hex_digit: "d < 16 \<Longrightarrow> hex_val (hex_digit d) = Some d"
proof -
  assume "d < 16"
  then have "d \<in> set [0..<16]" by simp
  also have "[0..<16] = [0, 1, 2, 3, 4, 5, 6, 7, 8, 9, 10, 11, 12, 13, 14, 15 :: nat]"
    by code_simp
  finally show ?thesis
    by (auto simp: hex_digit_def hex_val_def ord_def)
qed

lemma decode_uXXXX_escape:
  "decode_uXXXX (CHR ''0'' # CHR ''0'' # hex_digit (ord c div 16) # hex_digit (ord c mod 16) # rest)
     = Some (ord c)"
proof -
  have "ord c div 16 < 16" using ord_less_256 [of c] by simp
  moreover have "ord c mod 16 < 16" by simp
  moreover have "hex_val CHR ''0'' = Some 0" by (simp add: hex_val_def ord_def)
  ultimately show ?thesis by (simp add: hex_val_hex_digit)
qed

lemma scanstring_ESCAPE_DCT:
  "scanstring (ESCAPE_DCT c @ rest) = prepend c (scanstring rest)"
proof -
  consider (special) "c \<in> set [CHR 0x5C, CHR 0x22, CHR 0x08, CHR 0x0C, CHR 0x0A, CHR 0x0D, CHR 0x09]"
    | (printable) "c \<notin> set [CHR 0x5C, CHR 0x22, CHR 0x08, CHR 0x0C, CHR 0x0A, CHR 0x0D, CHR 0x09]"
        "0x20 \<le> ord c" "ord c \<le> 0x7E"
    | (other) "c \<notin> set [CHR 0x5C, CHR 0x22, CHR 0x08, CHR 0x0C, CHR 0x0A, CHR 0x0D, CHR 0x09]"
        "\<not> (0x20 \<le> ord c \<and> ord c \<le> 0x7E)"
    by blast
  then show ?thesis
  proof cases
    case special
    then show ?thesis
      by (auto simp: ESCAPE_DCT_def BACKSLASH_def)
  next
    case printable
    then show ?thesis
      by (simp add: ESCAPE_DCT_def)
  next
    case other
    then have e: "ESCAPE_DCT c = [CHR 0x5C, CHR ''u'', CHR ''0'', CHR ''0'',
            hex_digit (ord c div 16), hex_digit (ord c mod 16)]"
      by (simp add: ESCAPE_DCT_def)
    show ?thesis
      unfolding e using ord_less_256 [of c]
      by (simp add: decode_uXXXX_escape chr_ord del: decode_uXXXX.simps)
  qed
qed

lemma scanstring_escaped:
  "scanstring (concat (map ESCAPE_DCT s) @ CHR 0x22 # rest) = Some (s, rest)"
  by (induction s) (simp_all add: scanstring_ESCAPE_DCT prepend_def)

lemma encode_basestring_ascii_Cons:
  "encode_basestring_ascii s @ rest = CHR 0x22 # concat (map ESCAPE_DCT s) @ CHR 0x22 # rest"
  by (simp add: encode_basestring_ascii_def)

lemma skip_ws_newline_indent: "skip_ws (newline_indent n @ rest) = skip_ws rest"
  by (simp add: skip_ws_def newline_indent_def is_ws_def dropWhile_append)

lemma skip_ws_Cons: "\<not> is_ws c \<Longrightarrow> skip_ws (c # rest) = c # rest"
  by (simp add: skip_ws_def)

lemma join_Cons: "ys \<noteq> [] \<Longrightarrow> join sep (x # ys) = x @ sep @ join sep ys"
  by (cases ys) simp_all

lemma join_encode_starts:
  assumes "xs \<noteq> []"
  obtains t where "join sep (map encode_basestring_ascii xs) = CHR 0x22 # t"
proof (cases xs)
  case Nil
  with assms show ?thesis by simp
next
  case (Cons x ys)
  then show ?thesis
    using that by (cases ys) (simp_all add: encode_basestring_ascii_def)
qed

lemma parse_elements_dumps:
  "xs \<noteq> [] \<Longrightarrow>
   parse_elements (join (CHR '','' # newline_indent m) (map encode_basestring_ascii xs)
                   @ newline_indent n @ CHR '']'' # rest) = Some (xs, rest)"
proof (induction xs rule: list_nonempty_induct)
  case (single x)
  show ?case
    by (subst parse_elements.simps)
       (simp add: encode_basestring_ascii_Cons scanstring_escaped skip_ws_newline_indent
          skip_ws_Cons is_ws_def)
next
  case (cons x xs)
  obtain t where t: "join (CHR '','' # newline_indent m) (map encode_basestring_ascii xs) = CHR 0x22 # t"
    using cons.hyps by (rule join_encode_starts)
  have ih: "parse_elements (CHR 0x22 # t @ newline_indent n @ CHR '']'' # rest) = Some (xs, rest)"
    using cons.IH by (simp add: t)
  show ?case
    using cons.hyps
    by (subst parse_elements.simps)
       (simp add: join_Cons encode_basestring_ascii_Cons scanstring_escaped
          skip_ws_newline_indent skip_ws_Cons is_ws_def t ih)
qed

lemma dumps_list_parse:
  obtains body where "dumps_list xs = CHR ''['' # body"
    and "\<And>rest. JSONArray (body @ rest) = Some (xs, rest)"
proof (cases "xs = []")
  case True
  have "dumps_list xs = CHR ''['' # '']''" using True by (simp add: dumps_list_def)
  moreover have "JSONArray ('']'' @ rest) = Some (xs, rest)" for rest
    using True by (simp add: JSONArray_def skip_ws_Cons is_ws_def)
  ultimately show ?thesis using that by blast
next
  case False
  obtain t where t: "join (CHR '','' # newline_indent 2) (map encode_basestring_ascii xs) = CHR 0x22 # t"
    using False by (rule join_encode_starts)
  have pe: "parse_elements (CHR 0x22 # t @ newline_indent 1 @ CHR '']'' # rest) = Some (xs, rest)" for rest
    using parse_elements_dumps [OF False, of 2 1 rest] by (simp only: t append_Cons)
  have "dumps_list xs = CHR ''['' # (newline_indent 2 @ CHR 0x22 # t @ newline_indent 1 @ '']'')"
    using False by (simp add: dumps_list_def t del: One_nat_def)
  moreover have "JSONArray ((newline_indent 2 @ CHR 0x22 # t @ newline_indent 1 @ '']'') @ rest)
      = Some (xs, rest)" for rest
    using pe [of rest]
    by (simp add: JSONArray_def skip_ws_newline_indent skip_ws_Cons is_ws_def del: One_nat_def)
  ultimately show ?thesis using that by blast
qed

lemma join_items_starts:
  assumes "d \<noteq> []"
  obtains t where "join sep (map dumps_item d) = CHR 0x22 # t"
proof (cases d)
  case Nil
  with assms show ?thesis by simp
next
  case (Cons x ys)
  then show ?thesis
    using that by (cases ys) (simp_all add: dumps_item_def encode_basestring_ascii_def)
qed

lemma parse_pairs_item:
  "parse_pairs (dumps_item (k, v) @ rest) =
     (case skip_ws rest of
        [] \<Rightarrow> None
      | c # r \<Rightarrow>
          if c = CHR ''}'' then Some ([(k, v)], r)
          else if c = CHR '','' then
            (case parse_pairs (skip_ws r) of
               None \<Rightarrow> None
             | Some (ps, r') \<Rightarrow> Some ((k, v) # ps, r'))
          else None)"
proof -
  obtain body where b: "dumps_list v = CHR ''['' # body"
    and arr: "\<And>rest. JSONArray (body @ rest) = Some (v, rest)"
    using dumps_list_parse [of v] by metis
  have sp: "skip_ws (CHR '' '' # CHR ''['' # r) = CHR ''['' # r" for r
    by (simp add: skip_ws_def is_ws_def)
  have "dumps_item (k, v) @ rest
      = CHR 0x22 # concat (map ESCAPE_DCT k) @ CHR 0x22 # CHR '':'' # CHR '' '' # CHR ''[''
          # body @ rest"
    by (simp add: dumps_item_def encode_basestring_ascii_def b)
  then show ?thesis
    by (subst parse_pairs.simps)
       (simp add: scanstring_escaped skip_ws_Cons is_ws_def arr sp)
qed

lemma parse_pairs_dumps:
  "d \<noteq> [] \<Longrightarrow>
   parse_pairs (join (CHR '','' # newline_indent m) (map dumps_item d)
                @ newline_indent n @ CHR ''}'' # rest) = Some (d, rest)"
proof (induction d rule: list_nonempty_induct)
  case (single kv)
  show ?case
    by (cases kv) (simp add: parse_pairs_item skip_ws_newline_indent skip_ws_Cons is_ws_def)
next
  case (cons kv d)
  obtain t where t: "join (CHR '','' # newline_indent m) (map dumps_item d) = CHR 0x22 # t"
    using cons.hyps by (rule join_items_starts)
  have ih: "parse_pairs (CHR 0x22 # t @ newline_indent n @ CHR ''}'' # rest) = Some (d, rest)"
    using cons.IH by (simp add: t)
  show ?case
    using cons.hyps
    by (cases kv)
       (simp add: join_Cons parse_pairs_item skip_ws_newline_indent skip_ws_Cons is_ws_def t ih)
qed

lemma foldl_update_fresh:
  "distinct (map fst (acc @ ps)) \<Longrightarrow>
   foldl (\<lambda>d kv. AList.update (fst kv) (snd kv) d) acc ps = acc @ ps"
proof (induction ps arbitrary: acc)
  case Nil
  show ?case by simp
next
  case (Cons p ps)
  have fresh: "fst p \<notin> fst ` set acc" using Cons.prems by auto
  have "AList.update (fst p) (snd p) acc = acc @ [p]"
    using fresh by (induction acc) auto
  moreover have "distinct (map fst ((acc @ [p]) @ ps))" using Cons.prems by simp
  ultimately show ?case using Cons.IH [of "acc @ [p]"] by simp
qed

lemma dict_distinct_id: "distinct (map fst d) \<Longrightarrow> dict d = d"
  using foldl_update_fresh [of "[]" d] by (simp add: dict_def)

lemma distinct_foldl_update:
  "distinct (map fst acc) \<Longrightarrow>
   distinct (map fst (foldl (\<lambda>d kv. AList.update (fst kv) (snd kv) d) acc ps))"
  by (induction ps arbitrary: acc) (simp_all add: distinct_update)

lemma distinct_dict: "distinct (map fst (dict ps))"
  by (simp add: dict_def distinct_foldl_update)

lemma json_loads_distinct: "json_loads s = Some d \<Longrightarrow> distinct (map fst d)"
  by (auto simp: json_loads_def JSONObject_def distinct_dict
      split: list.splits if_splits option.splits)

lemma json_loads_dumps: "distinct (map fst d) \<Longrightarrow> json_loads (json_dumps d) = Some d"
proof (cases "d = []")
  case True
  then show ?thesis
    by (simp add: json_loads_def json_dumps_def JSONObject_def skip_ws_Cons is_ws_def skip_ws_def [of "[]"])
next
  case False
  assume dist: "distinct (map fst d)"
  obtain t where t: "join (CHR '','' # newline_indent 1) (map dumps_item d) = CHR 0x22 # t"
    using False by (rule join_items_starts)
  have pp: "parse_pairs (CHR 0x22 # t @ newline_indent 0 @ [CHR ''}'']) = Some (d, [])"
    using parse_pairs_dumps [OF False, of 1 0 "[]"] by (simp only: t append_Cons)
  have "json_dumps d = CHR ''{'' # newline_indent 1 @ CHR 0x22 # t @ newline_indent 0 @ [CHR ''}'']"
    using False by (simp add: json_dumps_def t del: One_nat_def)
  then show ?thesis
    using pp dist
    by (simp add: json_loads_def JSONObject_def skip_ws_newline_indent
        skip_ws_Cons is_ws_def dict_distinct_id skip_ws_def [of "[]"] del: One_nat_def)
qed

section \<open>Splitting a long message\<close>














section \<open>The handlers on an accepting platform\<close>

lemma load_members_stored:
  "stored_registry w = Some members \<Longrightarrow> load_members w = (Inr members, emit ReadMembersFile w)"
  by (auto simp: stored_registry_def load_members_def split: option.splits)

lemma snd_load_members: "snd (load_members w) = emit ReadMembersFile w"
  by (simp add: load_members_def split: option.splits)

lemma reply_text_accepted:
  "set (send_script w) \<subseteq> {None} \<Longrightarrow>
   reply_text m body w =
     (Inr (), emit (Reply body (message_id m) (if is_topic_message m then message_thread_id m else None))
                (w\<lparr>send_script := tl (send_script w)\<rparr>))"
  by (cases "send_script w") (auto simp: reply_text_def split: option.splits)





lemma tag_all_mention:
  "chat_type (chat m) \<in> set [''group'', ''supergroup''] \<Longrightarrow> message_text m = Some txt \<Longrightarrow>
   txt \<noteq> [] \<Longrightarrow> str_in (lower bot_username) (lower txt) \<Longrightarrow>
   tag_all bot_username m w =
     (case tag_all_try bot_username m w of
        (Inl (TelegramError e), w1) \<Rightarrow>
          reply_text m
            ''Sorry, I couldn't tag everyone. Please ensure I'm an admin and try again.''
            (emit (LogError (''Error tagging members: '' @ e)) w1)
      | (r, w1) \<Rightarrow> (r, w1))"
  by (simp add: tag_all_def)

lemma tag_all_returned:
  "chat_type (chat m) \<in> set [''group'', ''supergroup''] \<Longrightarrow> message_text m = Some txt \<Longrightarrow>
   txt \<noteq> [] \<Longrightarrow> str_in (lower bot_username) (lower txt) \<Longrightarrow>
   tag_all_try bot_username m w = (Inr (), w1) \<Longrightarrow>
   tag_all bot_username m w = (Inr (), w1)"
  by (simp add: tag_all_def)


lemma send_tagged_short:
  assumes "set (send_script w) \<subseteq> {None}" and "length (join [CHR 0x0A] tags) \<le> max_length"
  shows "send_tagged m tags w =
     (Inr (),
      w\<lparr>send_script := tl (send_script w),
        trace := trace w @
          [Reply (join [CHR 0x0A] tags) (message_id m) (if is_topic_message m then message_thread_id m else None),
           LogInfo (''Tagged '' @ str (int (length tags)) @ '' members in chat ''
                @ str (chat_id (chat m)))]\<rparr>)"
  using assms by (simp add: send_tagged_def reply_text_accepted emit_def)

section \<open>Tracking\<close>

lemma stored_registry_emit: "stored_registry (emit e w) = stored_registry w"
  by (simp add: stored_registry_def emit_def)

lemma stored_registry_save:
  "distinct (map fst members) \<Longrightarrow> stored_registry (save_members members w) = Some members"
  by (simp add: stored_registry_def save_members_def emit_def json_loads_dumps)

lemma stored_registry_distinct: "stored_registry w = Some members \<Longrightarrow> distinct (map fst members)"
  by (auto simp: stored_registry_def json_loads_distinct split: option.splits)

lemma load_members_corrupt:
  "stored_registry w = None \<Longrightarrow> load_members w = (Inl JSONDecodeError, emit ReadMembersFile w)"
  by (auto simp: stored_registry_def load_members_def split: option.splits)

lemma update_update: "AList.update k v (AList.update k v' al) = AList.update k v al"
  by (induction al) auto

lemma track_members_same_sender:
  "chat m' = chat m \<Longrightarrow> from_user m' = from_user m \<Longrightarrow> track_members m' w = track_members m w"
  unfolding track_members_def by (erule ssubst, erule ssubst) (rule refl)

lemma track_members_active:
  assumes "chat_type (chat m) \<in> set [''group'', ''supergroup'']"
    and "from_user m = Some u" and "username u = Some name" and "name \<noteq> []" and "\<not> is_bot u"
    and "stored_registry w = Some members0"
  shows "track_members m w =
     (if name \<in> set (dict_get members0 (str (chat_id (chat m))) [])
      then (Inr (), emit ReadMembersFile w)
      else (Inr (),
            emit (LogInfo (''Added @'' @ name @ '' to members list for chat ''
                    @ str (chat_id (chat m))))
              (save_members
                 (AList.update (str (chat_id (chat m)))
                    (dict_get members0 (str (chat_id (chat m))) [] @ [name]) members0)
                 (emit ReadMembersFile w))))"
proof (cases "map_of members0 (str (chat_id (chat m)))")
  case None
  then show ?thesis
    using assms
    by (simp add: track_members_def load_members_stored dict_get_def update_conv' update_update Let_def)
next
  case (Some names)
  then show ?thesis
    using assms
    by (simp add: track_members_def load_members_stored dict_get_def Let_def)
qed

lemma track_members_corrupt:
  assumes "chat_type (chat m) \<in> set [''group'', ''supergroup'']"
    and "from_user m = Some u" and "username u = Some name" and "name \<noteq> []" and "\<not> is_bot u"
    and "stored_registry w = None"
  shows "track_members m w = (Inl JSONDecodeError, emit ReadMembersFile w)"
  using assms by (simp add: track_members_def load_members_corrupt)

lemma track_members_inactive:
  assumes "\<not> (chat_type (chat m) \<in> set [''group'', ''supergroup'']
            \<and> (\<exists>u name. from_user m = Some u \<and> username u = Some name \<and> name \<noteq> [] \<and> \<not> is_bot u))"
  shows "snd (track_members m w) = w"
  using assms by (auto simp: track_members_def split: option.splits)

lemma members_file_emit: "members_file (emit e w) = members_file w"
  by (simp add: emit_def)

lemma track_members_twice:
  "members_file (snd (track_members m (snd (track_members m w)))) = members_file (snd (track_members m w))"
proof (cases "chat_type (chat m) \<in> set [''group'', ''supergroup'']
            \<and> (\<exists>u name. from_user m = Some u \<and> username u = Some name \<and> name \<noteq> [] \<and> \<not> is_bot u)")
  case False
  then show ?thesis by (simp add: track_members_inactive)
next
  case True
  then obtain u name where act: "chat_type (chat m) \<in> set [''group'', ''supergroup'']"
    "from_user m = Some u" "username u = Some name" "name \<noteq> []" "\<not> is_bot u"
    by blast
  let ?cid = "str (chat_id (chat m))"
  show ?thesis
  proof (cases "stored_registry w")
    case None
    have 1: "track_members m w = (Inl JSONDecodeError, emit ReadMembersFile w)"
      using act None by (rule track_members_corrupt)
    have "stored_registry (emit ReadMembersFile w) = None"
      using None by (simp add: stored_registry_emit)
    then have "track_members m (emit ReadMembersFile w)
        = (Inl JSONDecodeError, emit ReadMembersFile (emit ReadMembersFile w))"
      using act by (intro track_members_corrupt)
    then show ?thesis using 1 by (simp add: members_file_emit)
  next
    case (Some members0)
    note first = track_members_active [OF act Some]
    show ?thesis
    proof (cases "name \<in> set (dict_get members0 ?cid [])")
      case True
      have "stored_registry (emit ReadMembersFile w) = Some members0"
        using Some by (simp add: stored_registry_emit)
      from track_members_active [OF act this] True first
      show ?thesis by (simp add: members_file_emit)
    next
      case False
      let ?members = "AList.update ?cid (dict_get members0 ?cid [] @ [name]) members0"
      let ?w1 = "emit (LogInfo (''Added @'' @ name @ '' to members list for chat '' @ ?cid))
              (save_members ?members (emit ReadMembersFile w))"
      have w1: "track_members m w = (Inr (), ?w1)" using first False by simp
      have "distinct (map fst ?members)"
        using stored_registry_distinct [OF Some] by (simp add: distinct_update)
      then have st: "stored_registry ?w1 = Some ?members"
        by (simp add: stored_registry_emit stored_registry_save)
      have "name \<in> set (dict_get ?members ?cid [])"
        by (simp add: dict_get_def update_conv')
      then have "track_members m ?w1 = (Inr (), emit ReadMembersFile ?w1)"
        using track_members_active [OF act st] by simp
      then show ?thesis using w1 by (simp add: members_file_emit)
    qed
  qed
qed

lemma values_update: "snd ` set (AList.update k v al) \<subseteq> insert v (snd ` set al)"
  by (induction al) auto

lemma track_members_no_duplicates:
  assumes "stored_registry w = Some members" and "\<forall>names \<in> snd ` set members. distinct names"
  shows "\<exists>members'. stored_registry (snd (track_members m w)) = Some members'
           \<and> (\<forall>names \<in> snd ` set members'. distinct names)"
proof (cases "chat_type (chat m) \<in> set [''group'', ''supergroup'']
            \<and> (\<exists>u name. from_user m = Some u \<and> username u = Some name \<and> name \<noteq> [] \<and> \<not> is_bot u)")
  case False
  then show ?thesis using assms by (simp add: track_members_inactive)
next
  case True
  then obtain u name where act: "chat_type (chat m) \<in> set [''group'', ''supergroup'']"
    "from_user m = Some u" "username u = Some name" "name \<noteq> []" "\<not> is_bot u"
    by blast
  let ?cid = "str (chat_id (chat m))"
  note first = track_members_active [OF act assms(1)]
  show ?thesis
  proof (cases "name \<in> set (dict_get members ?cid [])")
    case True
    then show ?thesis using first assms by (simp add: stored_registry_emit)
  next
    case False
    let ?members = "AList.update ?cid (dict_get members ?cid [] @ [name]) members"
    have "distinct (map fst ?members)"
      using stored_registry_distinct [OF assms(1)] by (simp add: distinct_update)
    then have st: "stored_registry (snd (track_members m w)) = Some ?members"
      using first False by (simp add: stored_registry_emit stored_registry_save)
    have "distinct (dict_get members ?cid [])"
    proof (cases "map_of members ?cid")
      case None
      then show ?thesis by (simp add: dict_get_def)
    next
      case (Some names)
      then have "(?cid, names) \<in> set members" by (rule map_of_SomeD)
      then have "names \<in> snd ` set members" by force
      then have "distinct names" using assms(2) by blast
      then show ?thesis using Some by (simp add: dict_get_def)
    qed
    then have "distinct (dict_get members ?cid [] @ [name])" using False by simp
    then have "\<forall>names \<in> insert (dict_get members ?cid [] @ [name]) (snd ` set members). distinct names"
      using assms(2) by simp
    then have "\<forall>names \<in> snd ` set ?members. distinct names"
      using values_update [of ?cid "dict_get members ?cid [] @ [name]" members] by (meson subsetD)
    then show ?thesis using st by blast
  qed
qed

lemma track_sequence_no_duplicates:
  assumes "stored_registry w = Some members" and "\<forall>names \<in> snd ` set members. distinct names"
  shows "\<exists>members'. stored_registry (foldl (\<lambda>w m. snd (track_members m w)) w ms) = Some members'
           \<and> (\<forall>names \<in> snd ` set members'. distinct names)"
  using assms
proof (induction ms arbitrary: w members)
  case Nil
  then show ?case by simp
next
  case (Cons m ms)
  obtain members1 where "stored_registry (snd (track_members m w)) = Some members1"
    "\<forall>names \<in> snd ` set members1. distinct names"
    using track_members_no_duplicates [OF Cons.prems] by blast
  then show ?case using Cons.IH by simp
qed

lemma track_sequence_example:
  "stored_registry (foldl (\<lambda>w m. snd (track_members m w)) fresh_world
          [message_in group_chat (person ''alice'') 1 ''hello'',
           message_in group_chat (person ''bob'') 2 ''hi'',
           message_in group_chat (person ''alice'') 3 ''again'']) = Some [(''123'', [''alice'', ''bob''])]"
  by code_simp

section \<open>The mention path\<close>

lemma file_writes_append: "file_writes (xs @ ys) = file_writes xs @ file_writes ys"
  by (induction xs rule: file_writes.induct) simp_all

lemma file_reads_append: "file_reads (xs @ ys) = file_reads xs + file_reads ys"
  by (induction xs rule: file_reads.induct) simp_all

lemma quiet_refl: "quiet w w"
  by (simp add: quiet_def)

lemma quiet_trans: "quiet w w1 \<Longrightarrow> quiet w1 w2 \<Longrightarrow> quiet w w2"
  by (auto simp: quiet_def file_writes_append file_reads_append)

lemma quiet_emit: "file_writes [e] = [] \<Longrightarrow> file_reads [e] = 0 \<Longrightarrow> quiet w (emit e w)"
  by (simp add: quiet_def emit_def)

lemma quiet_reply_text: "quiet w (snd (reply_text m body w))"
  by (simp add: reply_text_def quiet_def emit_def split: list.splits option.splits)

lemma quiet_get_chat_administrators: "quiet w (snd (get_chat_administrators cid w))"
  by (simp add: get_chat_administrators_def quiet_emit split: sum.splits)

lemma quiet_send_parts: "quiet w (snd (send_parts m parts w))"
proof (induction parts arbitrary: w)
  case Nil
  show ?case by (simp add: quiet_refl)
next
  case (Cons part parts)
  obtain r w1 where r: "reply_text m part w = (r, w1)" by (cases "reply_text m part w") auto
  have q1: "quiet w w1" using quiet_reply_text [of w m part] r by simp
  show ?case
  proof (cases r)
    case (Inl e)
    then show ?thesis using r q1 by simp
  next
    case (Inr u)
    have "quiet w1 (emit (Sleep 1) w1)" by (simp add: quiet_emit)
    moreover have "quiet (emit (Sleep 1) w1) (snd (send_parts m parts (emit (Sleep 1) w1)))"
      by (rule Cons.IH)
    ultimately have "quiet w (snd (send_parts m parts (emit (Sleep 1) w1)))"
      using q1 by (blast intro: quiet_trans)
    then show ?thesis using r Inr by simp
  qed
qed

lemma quiet_send_tagged: "quiet w (snd (send_tagged m tags w))"
proof -
  let ?sent = "if length (join [CHR 0x0A] tags) > max_length
               then send_parts m (split_parts tags) w
               else reply_text m (join [CHR 0x0A] tags) w"
  obtain r w1 where r: "?sent = (r, w1)" by (cases ?sent) auto
  have q1: "quiet w w1"
    using r quiet_send_parts [of w m "split_parts tags"] quiet_reply_text [of w m "join [CHR 0x0A] tags"]
    by (auto split: if_splits)
  show ?thesis
  proof (cases r)
    case (Inl e)
    then show ?thesis using r q1 by (simp add: send_tagged_def)
  next
    case (Inr u)
    have "quiet w1 (emit (LogInfo (''Tagged '' @ str (int (length tags))
                      @ '' members in chat '' @ str (chat_id (chat m)))) w1)"
      by (simp add: quiet_emit)
    then show ?thesis using r Inr q1 by (auto simp: send_tagged_def intro: quiet_trans)
  qed
qed

lemma quiet_tag_all_try: "quiet (emit ReadMembersFile w) (snd (tag_all_try bot_username m w))"
proof -
  obtain r w1 where l: "load_members w = (r, w1)" by (cases "load_members w") auto
  have q1: "quiet (emit ReadMembersFile w) w1"
    using snd_load_members [of w] l by (simp add: quiet_refl)
  show ?thesis
  proof (cases r)
    case (Inl e)
    then show ?thesis using l q1 by (simp add: tag_all_try_def)
  next
    case (Inr members)
    let ?tags = "stored_tags bot_username members (str (chat_id (chat m)))"
    show ?thesis
    proof (cases "?tags = []")
      case False
      then have "tag_all_try bot_username m w = send_tagged m ?tags w1"
        using l Inr by (simp add: tag_all_try_def)
      then show ?thesis using q1 quiet_send_tagged [of w1 m ?tags] by (auto intro: quiet_trans)
    next
      case True
      obtain ra w2 where a: "get_chat_administrators (chat_id (chat m)) w1 = (ra, w2)"
        by (cases "get_chat_administrators (chat_id (chat m)) w1") auto
      have q2: "quiet (emit ReadMembersFile w) w2"
        using q1 quiet_get_chat_administrators [of w1 "chat_id (chat m)"] a
        by (auto intro: quiet_trans)
      show ?thesis
      proof (cases ra)
        case (Inl e)
        then show ?thesis using l Inr True a q2 by (simp add: tag_all_try_def)
      next
        case admins: (Inr admins)
        have "quiet w2 (snd (reply_text m body w2))" for body by (rule quiet_reply_text)
        moreover have "quiet w2 (snd (send_tagged m (admin_tags bot_username admins) w2))"
          by (rule quiet_send_tagged)
        ultimately show ?thesis
          using l Inr True a admins q2
          by (auto simp: tag_all_try_def Let_def intro: quiet_trans)
      qed
    qed
  qed
qed

lemma quiet_tag_all_mention:
  assumes "message_text m = Some txt" and "str_in (lower bot_username) (lower txt)"
  shows "snd (tag_all bot_username m w) = w
         \<or> quiet (emit ReadMembersFile w) (snd (tag_all bot_username m w))"
proof (cases "chat_type (chat m) \<in> set [''group'', ''supergroup''] \<and> txt \<noteq> []")
  case False
  then have "tag_all bot_username m w = (Inr (), w)"
    using assms by (auto simp: tag_all_def)
  then show ?thesis by simp
next
  case True
  obtain r w1 where t: "tag_all_try bot_username m w = (r, w1)"
    by (cases "tag_all_try bot_username m w") auto
  have q1: "quiet (emit ReadMembersFile w) w1"
    using quiet_tag_all_try [of w bot_username m] t by simp
  note mention = tag_all_mention [of m _ bot_username w]
  show ?thesis
  proof (cases "\<exists>e. r = Inl (TelegramError e)")
    case False
    then have "tag_all bot_username m w = (r, w1)"
      using mention True assms t by (auto split: sum.splits error.splits)
    then show ?thesis using q1 by simp
  next
    case is_error: True
    then obtain e where e: "r = Inl (TelegramError e)" by blast
    let ?w2 = "emit (LogError (''Error tagging members: '' @ e)) w1"
    have "quiet w1 ?w2" by (simp add: quiet_emit)
    moreover have "quiet ?w2 (snd (reply_text m body ?w2))" for body by (rule quiet_reply_text)
    ultimately have "quiet (emit ReadMembersFile w) (snd (reply_text m body ?w2))" for body
      using q1 by (blast intro: quiet_trans)
    then show ?thesis using mention True assms t e by simp
  qed
qed

lemma stored_registry_world_with:
  "distinct (map fst members) \<Longrightarrow> stored_registry (world_with members) = Some members"
  by (simp add: world_with_def stored_registry_def json_loads_dumps)

lemma stored_registry_fresh_world: "stored_registry fresh_world = Some []"
  by (simp add: fresh_world_def stored_registry_def)

lemma str_in_map: "str_in sub s \<Longrightarrow> str_in (map f sub) (map f s)"
proof (induction s)
  case Nil
  then show ?case by simp
next
  case (Cons c cs)
  show ?case
  proof (cases "take (length sub) (c # cs) = sub")
    case True
    then have "take (length (map f sub)) (map f (c # cs)) = map f sub"
      by (metis length_map take_map)
    then show ?thesis by simp
  next
    case False
    then show ?thesis using Cons by simp
  qed
qed

lemma admin_tags_filter:
  "admin_tags bot_username admins =
     map (\<lambda>admin. CHR ''@'' # the (username (user admin)))
       (filter (\<lambda>admin. \<not> is_bot (user admin) \<and> username (user admin) \<noteq> None
                  \<and> username (user admin) \<noteq> Some [] \<and> username (user admin) \<noteq> Some bot_username)
          admins)"
  by (induction admins) (auto simp: admin_tags_def taggable_admin_def split: option.splits)

lemma tag_all_try_stored:
  assumes "stored_registry w = Some members"
    and "stored_tags bot_username members (str (chat_id (chat m))) \<noteq> []"
  shows "tag_all_try bot_username m w =
     send_tagged m (stored_tags bot_username members (str (chat_id (chat m)))) (emit ReadMembersFile w)"
  using assms by (simp add: tag_all_try_def load_members_stored)

lemma tag_all_try_admins:
  assumes "stored_registry w = Some members"
    and "stored_tags bot_username members (str (chat_id (chat m))) = []"
    and "administrators w (chat_id (chat m)) = Inr admins"
  shows "tag_all_try bot_username m w =
     (if admin_tags bot_username admins = [] then
        reply_text m
          ''No members or admins with usernames found to tag! Users must send a message to be included.''
          (emit (GetChatAdministrators (chat_id (chat m))) (emit ReadMembersFile w))
      else send_tagged m (admin_tags bot_username admins)
             (emit (GetChatAdministrators (chat_id (chat m))) (emit ReadMembersFile w)))"
  using assms
  by (simp add: tag_all_try_def load_members_stored get_chat_administrators_def emit_def)

lemma send_script_emit: "send_script (emit e w) = send_script w"
  by (simp add: emit_def)

lemma trace_emit: "trace (emit e w) = trace w @ [e]"
  by (simp add: emit_def)

lemma str_123: "str 123 = ''123''"
  by code_simp

lemma mention_message_detected: "str_in (lower ''mybot'') (lower ''hey @MyBot tag everyone'')"
  by code_simp

lemma mention_message_simps:
  "chat_type (chat mention_message) = ''group''"
  "chat_id (chat mention_message) = 123"
  "message_text mention_message = Some ''hey @MyBot tag everyone''"
  "message_id mention_message = 7"
  "is_topic_message mention_message = False"
  "from_user mention_message = Some (person ''zed'')"
  by (simp_all add: mention_message_def message_in_def group_chat_def)

lemma world_with_simps:
  "members_file (world_with members) = Some (json_dumps members)"
  "send_script (world_with members) = []"
  "trace (world_with members) = []"
  "administrators (world_with members) cid = Inr []"
  by (simp_all add: world_with_def fresh_world_def)

lemma fresh_world_simps:
  "members_file fresh_world = None"
  "send_script fresh_world = []"
  "trace fresh_world = []"
  "administrators fresh_world cid = Inr []"
  by (simp_all add: fresh_world_def)

lemma tracking_the_mention_sender:
  "stored_registry (snd (track_members mention_message (world_with example_registry)))
     = Some [(''123'', [''alice'', ''bob'', ''carol'', ''zed'']), (''-1001'', [])]"
  by code_simp

section \<open>Long tag lists and refused sends\<close>
















lemma refused_send_example:
  "fst (tag_all_try ''mybot'' mention_message (refusing [''Forbidden''] (world_with example_registry)))
     = Inl (TelegramError ''Forbidden'')"
  "send_script (snd (tag_all_try ''mybot'' mention_message (refusing [''Forbidden''] (world_with example_registry)))) = []"
  "trace (snd (tag_all_try ''mybot'' mention_message (refusing [''Forbidden''] (world_with example_registry))))
     = [ReadMembersFile]"
  by code_simp+

lemma refused_query_example:
  "fst (tag_all_try ''mybot'' mention_message (fresh_world\<lparr>administrators := \<lambda>cid. Inl ''Chat not found''\<rparr>))
     = Inl (TelegramError ''Chat not found'')"
  "send_script (snd (tag_all_try ''mybot'' mention_message (fresh_world\<lparr>administrators := \<lambda>cid. Inl ''Chat not found''\<rparr>))) = []"
  "trace (snd (tag_all_try ''mybot'' mention_message (fresh_world\<lparr>administrators := \<lambda>cid. Inl ''Chat not found''\<rparr>)))
     = [ReadMembersFile, GetChatAdministrators 123]"
  by code_simp+

section \<open>Properties of the handlers\<close>




text \<open>
  C2, as amended. When the body of the \<^verbatim>\<open>try\<close> raises a \<^verbatim>\<open>TelegramError\<close>
  (a refused send or a refused administrator query), the error is caught, logged with
  its message, and the generic failure reply is attempted once. If the platform accepts
  it, that reply is the only event after the log line and the handler returns. If the
  platform refuses it too, that second error leaves the handler.
\<close>

theorem telegram_error_is_caught:
  assumes group: "chat_type (chat m) \<in> set [''group'', ''supergroup'']"
    and mention: "message_text m = Some txt" "txt \<noteq> []" "str_in (lower bot_username) (lower txt)"
    and failed: "tag_all_try bot_username m w = (Inl (TelegramError e), w1)"
  shows "(send_script w1 = [] \<or> hd (send_script w1) = None \<longrightarrow>
           fst (tag_all bot_username m w) = Inr ()
           \<and> trace (snd (tag_all bot_username m w)) =
               trace w1 @
               [LogError (''Error tagging members: '' @ e),
                Reply ''Sorry, I couldn't tag everyone. Please ensure I'm an admin and try again.''
                  (message_id m) (if is_topic_message m then message_thread_id m else None)])
     \<and> (\<forall>e' script. send_script w1 = Some e' # script \<longrightarrow>
           fst (tag_all bot_username m w) = Inl (TelegramError e')
           \<and> trace (snd (tag_all bot_username m w)) =
               trace w1 @ [LogError (''Error tagging members: '' @ e)])"
proof -
  let ?w2 = "emit (LogError (''Error tagging members: '' @ e)) w1"
  have caught: "tag_all bot_username m w =
      reply_text m ''Sorry, I couldn't tag everyone. Please ensure I'm an admin and try again.'' ?w2"
    using tag_all_mention [OF group mention, of w] failed by simp
  show ?thesis
  proof (intro conjI impI allI)
    assume "send_script w1 = [] \<or> hd (send_script w1) = None"
    then show "fst (tag_all bot_username m w) = Inr ()"
      unfolding caught by (cases "send_script w1") (auto simp: reply_text_def emit_def)
  next
    assume "send_script w1 = [] \<or> hd (send_script w1) = None"
    then show "trace (snd (tag_all bot_username m w)) =
               trace w1 @
               [LogError (''Error tagging members: '' @ e),
                Reply ''Sorry, I couldn't tag everyone. Please ensure I'm an admin and try again.''
                  (message_id m) (if is_topic_message m then message_thread_id m else None)]"
      unfolding caught by (cases "send_script w1") (auto simp: reply_text_def emit_def)
  next
    fix e' script
    assume "send_script w1 = Some e' # script"
    then show "fst (tag_all bot_username m w) = Inl (TelegramError e')"
      unfolding caught by (simp add: reply_text_def emit_def)
  next
    fix e' script
    assume "send_script w1 = Some e' # script"
    then show "trace (snd (tag_all bot_username m w)) =
               trace w1 @ [LogError (''Error tagging members: '' @ e)]"
      unfolding caught by (simp add: reply_text_def emit_def)
  qed
qed

theorem telegram_error_is_caught_witness:
  "fst (tag_all ''mybot'' mention_message (refusing [''Forbidden''] (world_with example_registry))) = Inr ()
   \<and> trace (snd (tag_all ''mybot'' mention_message (refusing [''Forbidden''] (world_with example_registry))))
       = [ReadMembersFile,
          LogError ''Error tagging members: Forbidden'',
          Reply ''Sorry, I couldn't tag everyone. Please ensure I'm an admin and try again.'' 7 None]
   \<and> fst (tag_all ''mybot'' mention_message (fresh_world\<lparr>administrators := \<lambda>cid. Inl ''Chat not found''\<rparr>))
       = Inr ()
   \<and> trace (snd (tag_all ''mybot'' mention_message (fresh_world\<lparr>administrators := \<lambda>cid. Inl ''Chat not found''\<rparr>)))
       = [ReadMembersFile, GetChatAdministrators 123,
          LogError ''Error tagging members: Chat not found'',
          Reply ''Sorry, I couldn't tag everyone. Please ensure I'm an admin and try again.'' 7 None]
   \<and> fst (tag_all ''mybot'' mention_message (refusing [''Forbidden'', ''Timed out''] (world_with example_registry)))
       = Inl (TelegramError ''Timed out'')"
proof -
  let ?w = "refusing [''Forbidden''] (world_with example_registry)"
  let ?v = "fresh_world\<lparr>administrators := \<lambda>cid. Inl ''Chat not found''\<rparr>"
  let ?u = "refusing [''Forbidden'', ''Timed out''] (world_with example_registry)"
  have fw: "tag_all_try ''mybot'' mention_message ?w
      = (Inl (TelegramError ''Forbidden''), snd (tag_all_try ''mybot'' mention_message ?w))"
    using refused_send_example(1) by (metis prod.collapse)
  have fv: "tag_all_try ''mybot'' mention_message ?v
      = (Inl (TelegramError ''Chat not found''), snd (tag_all_try ''mybot'' mention_message ?v))"
    using refused_query_example(1) by (metis prod.collapse)
  have fu1: "fst (tag_all_try ''mybot'' mention_message ?u) = Inl (TelegramError ''Forbidden'')"
    by code_simp
  have fu2: "send_script (snd (tag_all_try ''mybot'' mention_message ?u)) = [Some ''Timed out'']"
    by code_simp
  have fu: "tag_all_try ''mybot'' mention_message ?u
      = (Inl (TelegramError ''Forbidden''), snd (tag_all_try ''mybot'' mention_message ?u))"
    using fu1 by (metis prod.collapse)
  note w = telegram_error_is_caught
      [of mention_message "''hey @MyBot tag everyone''" "''mybot''" ?w, OF _ _ _ mention_message_detected fw]
  note v = telegram_error_is_caught
      [of mention_message "''hey @MyBot tag everyone''" "''mybot''" ?v, OF _ _ _ mention_message_detected fv]
  note u = telegram_error_is_caught
      [of mention_message "''hey @MyBot tag everyone''" "''mybot''" ?u, OF _ _ _ mention_message_detected fu]
  show ?thesis
    using w v u
    by (simp add: mention_message_simps refused_send_example refused_query_example fu2)
qed

text \<open>
  C2 as stated fails when the platform refuses the failure reply as well: no reply is
  sent and the handler ends with the second \<^verbatim>\<open>TelegramError\<close>.
\<close>

theorem failure_reply_refused_counterexample:
  "fst (tag_all ''mybot'' mention_message (refusing [''Forbidden'', ''Timed out''] (world_with example_registry)))
     = Inl (TelegramError ''Timed out'')
   \<and> reply_bodies (trace (snd (tag_all ''mybot'' mention_message
        (refusing [''Forbidden'', ''Timed out''] (world_with example_registry))))) = []"
  by code_simp


text \<open>
  C3. For every registry, \<^const>\<open>save_members\<close> followed by \<^const>\<open>load_members\<close>
  returns a registry equal to it. A registry is a dict: its keys are pairwise distinct.
\<close>

theorem save_then_load_round_trip:
  assumes "distinct (map fst members)"
  shows "fst (load_members (save_members members w)) = Inr members"
  using assms stored_registry_save [of members w]
  by (simp add: load_members_stored)

theorem save_then_load_round_trip_witness:
  "distinct (map fst example_registry)
   \<and> fst (load_members (save_members example_registry fresh_world)) = Inr example_registry"
proof -
  have d: "distinct (map fst example_registry)" by (simp add: example_registry_def)
  show ?thesis using d save_then_load_round_trip [OF d, of fresh_world] by simp
qed

text \<open>
  C4. Tracking the same sender in the same chat a second time leaves the registry file
  as the first run left it; and from a registry without duplicates (the absent file is
  one), any sequence of track operations leads to a registry in which no chat's list
  holds a username twice.
\<close>

theorem track_members_idempotent_no_duplicates:
  "(chat m' = chat m \<and> from_user m' = from_user m \<longrightarrow>
      members_file (snd (track_members m' (snd (track_members m w))))
        = members_file (snd (track_members m w)))
   \<and> (stored_registry w = Some members \<and> (\<forall>names \<in> snd ` set members. distinct names) \<longrightarrow>
        (\<exists>members'. stored_registry (foldl (\<lambda>w m. snd (track_members m w)) w ms) = Some members'
           \<and> (\<forall>names \<in> snd ` set members'. distinct names)))"
proof (intro conjI impI)
  assume "chat m' = chat m \<and> from_user m' = from_user m"
  then have "track_members m' (snd (track_members m w)) = track_members m (snd (track_members m w))"
    by (intro track_members_same_sender) simp_all
  then show "members_file (snd (track_members m' (snd (track_members m w))))
        = members_file (snd (track_members m w))"
    by (simp add: track_members_twice)
next
  assume "stored_registry w = Some members \<and> (\<forall>names \<in> snd ` set members. distinct names)"
  then show "\<exists>members'. stored_registry (foldl (\<lambda>w m. snd (track_members m w)) w ms) = Some members'
           \<and> (\<forall>names \<in> snd ` set members'. distinct names)"
    using track_sequence_no_duplicates [of w members ms] by simp
qed

theorem track_members_idempotent_no_duplicates_witness:
  "members_file (snd (track_members (message_in group_chat (person ''alice'') 2 ''again'')
       (snd (track_members (message_in group_chat (person ''alice'') 1 ''hello'') fresh_world))))
     = members_file (snd (track_members (message_in group_chat (person ''alice'') 1 ''hello'') fresh_world))
   \<and> (\<exists>members'.
        stored_registry (foldl (\<lambda>w m. snd (track_members m w)) fresh_world
          [message_in group_chat (person ''alice'') 1 ''hello'',
           message_in group_chat (person ''bob'') 2 ''hi'',
           message_in group_chat (person ''alice'') 3 ''again'']) = Some members'
        \<and> (\<forall>names \<in> snd ` set members'. distinct names))"
  using track_members_idempotent_no_duplicates
    [of "message_in group_chat (person ''alice'') 2 ''again''"
        "message_in group_chat (person ''alice'') 1 ''hello''"
        fresh_world "[]"
        "[message_in group_chat (person ''alice'') 1 ''hello'',
           message_in group_chat (person ''bob'') 2 ''hi'',
           message_in group_chat (person ''alice'') 3 ''again'']"]
  by (simp add: message_in_def stored_registry_def fresh_world_def)

text \<open>
  C5. When the chat is neither a group nor a supergroup, or the sender is a bot, or the
  sender's handle is absent or empty, \<^const>\<open>track_members\<close> returns with the world
  as it was: nothing is appended, and the registry file is neither read nor written (no
  event is added to the trace).
\<close>

theorem track_members_preconditions:
  assumes "chat_type (chat m) \<notin> set [''group'', ''supergroup'']
           \<or> (\<exists>u. from_user m = Some u \<and> (is_bot u \<or> username u = None \<or> username u = Some []))"
  shows "track_members m w = (Inr (), w)"
proof (cases "chat_type (chat m) \<in> set [''group'', ''supergroup'']")
  case False
  then show ?thesis by (simp add: track_members_def)
next
  case True
  then obtain u where u: "from_user m = Some u"
    and skip: "is_bot u \<or> username u = None \<or> username u = Some []"
    using assms by blast
  show ?thesis
  proof (cases "username u")
    case None
    then show ?thesis using u by (simp add: track_members_def)
  next
    case (Some name)
    then have c: "(name \<noteq> [] \<and> \<not> is_bot u) = False" using skip by auto
    show ?thesis using u Some by (simp add: track_members_def c)
  qed
qed

theorem track_members_preconditions_witness:
  "track_members (message_in group_chat \<lparr>username = Some ''helperbot'', is_bot = True\<rparr> 1 ''hi'') fresh_world
     = (Inr (), fresh_world)
   \<and> track_members (message_in group_chat \<lparr>username = Some [], is_bot = False\<rparr> 2 ''hi'') fresh_world
     = (Inr (), fresh_world)
   \<and> track_members (message_in group_chat \<lparr>username = None, is_bot = False\<rparr> 3 ''hi'') fresh_world
     = (Inr (), fresh_world)
   \<and> track_members (message_in private_chat (person ''alice'') 4 ''hi'') fresh_world
     = (Inr (), fresh_world)"
  using
    track_members_preconditions [of "message_in group_chat \<lparr>username = Some ''helperbot'', is_bot = True\<rparr> 1 ''hi''" fresh_world]
    track_members_preconditions [of "message_in group_chat \<lparr>username = Some [], is_bot = False\<rparr> 2 ''hi''" fresh_world]
    track_members_preconditions [of "message_in group_chat \<lparr>username = None, is_bot = False\<rparr> 3 ''hi''" fresh_world]
    track_members_preconditions [of "message_in private_chat (person ''alice'') 4 ''hi''" fresh_world]
  by (simp add: message_in_def group_chat_def private_chat_def person_def)

text \<open>
  C6. On a mention in a group, the candidate tag list is every handle stored for the
  chat except the bot's own, each behind an at sign, in stored order; when it is not
  empty and its lines fit one message, it is the body of the single reply (on a platform
  that accepts the reply). The example of the specification, the list alice, bob, carol of chat
  123 with the bot mybot, is the witness.
\<close>

theorem mention_tags_stored_members:
  assumes group: "chat_type (chat m) \<in> set [''group'', ''supergroup'']"
    and mention: "message_text m = Some txt" "txt \<noteq> []" "str_in (lower bot_username) (lower txt)"
    and stored: "stored_registry w = Some members"
    and tags: "tags = map (\<lambda>username. CHR ''@'' # username)
                       (filter (\<lambda>username. username \<noteq> bot_username)
                          (dict_get members (str (chat_id (chat m))) []))"
    and nonempty: "tags \<noteq> []"
    and short: "length (join [CHR 0x0A] tags) \<le> max_length"
    and accepted: "set (send_script w) \<subseteq> {None}"
  shows "fst (tag_all bot_username m w) = Inr ()
     \<and> trace (snd (tag_all bot_username m w)) =
         trace w @
         [ReadMembersFile,
          Reply (join [CHR 0x0A] tags) (message_id m)
            (if is_topic_message m then message_thread_id m else None),
          LogInfo (''Tagged '' @ str (int (length tags)) @ '' members in chat ''
                   @ str (chat_id (chat m)))]"
proof -
  have st: "stored_tags bot_username members (str (chat_id (chat m))) = tags"
    by (simp add: stored_tags_def tags)
  have "tag_all_try bot_username m w = send_tagged m tags (emit ReadMembersFile w)"
    using tag_all_try_stored [OF stored, of bot_username m] nonempty by (simp add: st)
  also have "\<dots> = (Inr (),
      (emit ReadMembersFile w)\<lparr>send_script := tl (send_script (emit ReadMembersFile w)),
        trace := trace (emit ReadMembersFile w) @
          [Reply (join [CHR 0x0A] tags) (message_id m) (if is_topic_message m then message_thread_id m else None),
           LogInfo (''Tagged '' @ str (int (length tags)) @ '' members in chat ''
                @ str (chat_id (chat m)))]\<rparr>)"
    using accepted short by (intro send_tagged_short) (simp_all add: send_script_emit)
  finally show ?thesis
    using tag_all_returned [OF group mention] by (simp add: trace_emit)
qed

theorem mention_tags_stored_members_witness:
  "fst (tag_all ''mybot'' mention_message (world_with example_registry)) = Inr ()
   \<and> reply_bodies (trace (snd (tag_all ''mybot'' mention_message (world_with example_registry))))
       = [''@alice'' @ CHR 0x0A # ''@bob'' @ CHR 0x0A # ''@carol'']"
proof -
  have stored: "stored_registry (world_with example_registry) = Some example_registry"
    by (rule stored_registry_world_with) (simp add: example_registry_def)
  have tags: "[''@alice'', ''@bob'', ''@carol''] =
      map (\<lambda>username. CHR ''@'' # username)
        (filter (\<lambda>username. username \<noteq> ''mybot'')
           (dict_get example_registry (str (chat_id (chat mention_message))) []))"
    by (simp add: mention_message_simps str_123 example_registry_def dict_get_def)
  have short: "length (join [CHR 0x0A] [''@alice'', ''@bob'', ''@carol'']) \<le> max_length"
    by (simp add: max_length_def)
  show ?thesis
    using mention_tags_stored_members
      [of mention_message "''hey @MyBot tag everyone''" "''mybot''" "world_with example_registry"
        example_registry "[''@alice'', ''@bob'', ''@carol'']",
        OF _ _ _ mention_message_detected stored tags _ short]
    by (simp add: mention_message_simps world_with_simps)
qed

text \<open>
  C7. When the stored list of the chat is empty, the administrators are queried, and
  the tag list is exactly the administrators that are not bots, have a handle that is
  neither absent nor empty, and differ from the bot, each behind an at sign; it is the
  body of the reply. The administrators dave, a bot and one without a handle give the
  list of the single tag of dave: the witness.
\<close>

theorem mention_falls_back_to_admins:
  assumes group: "chat_type (chat m) \<in> set [''group'', ''supergroup'']"
    and mention: "message_text m = Some txt" "txt \<noteq> []" "str_in (lower bot_username) (lower txt)"
    and stored: "stored_registry w = Some members"
    and empty: "dict_get members (str (chat_id (chat m))) [] = []"
    and admins: "administrators w (chat_id (chat m)) = Inr admins"
    and tags: "tags = map (\<lambda>admin. CHR ''@'' # the (username (user admin)))
                       (filter (\<lambda>admin. \<not> is_bot (user admin)
                                  \<and> username (user admin) \<noteq> None
                                  \<and> username (user admin) \<noteq> Some []
                                  \<and> username (user admin) \<noteq> Some bot_username) admins)"
    and nonempty: "tags \<noteq> []"
    and short: "length (join [CHR 0x0A] tags) \<le> max_length"
    and accepted: "set (send_script w) \<subseteq> {None}"
  shows "admin_tags bot_username admins = tags
     \<and> fst (tag_all bot_username m w) = Inr ()
     \<and> trace (snd (tag_all bot_username m w)) =
         trace w @
         [ReadMembersFile, GetChatAdministrators (chat_id (chat m)),
          Reply (join [CHR 0x0A] tags) (message_id m)
            (if is_topic_message m then message_thread_id m else None),
          LogInfo (''Tagged '' @ str (int (length tags)) @ '' members in chat ''
                   @ str (chat_id (chat m)))]"
proof -
  let ?w2 = "emit (GetChatAdministrators (chat_id (chat m))) (emit ReadMembersFile w)"
  have at: "admin_tags bot_username admins = tags"
    by (simp add: admin_tags_filter tags)
  have st: "stored_tags bot_username members (str (chat_id (chat m))) = []"
    by (simp add: stored_tags_def empty)
  have "tag_all_try bot_username m w = send_tagged m tags ?w2"
    using tag_all_try_admins [OF stored st admins] nonempty by (simp add: at)
  also have "\<dots> = (Inr (),
      ?w2\<lparr>send_script := tl (send_script ?w2),
        trace := trace ?w2 @
          [Reply (join [CHR 0x0A] tags) (message_id m) (if is_topic_message m then message_thread_id m else None),
           LogInfo (''Tagged '' @ str (int (length tags)) @ '' members in chat ''
                @ str (chat_id (chat m)))]\<rparr>)"
    using accepted short by (intro send_tagged_short) (simp_all add: send_script_emit)
  finally show ?thesis
    using tag_all_returned [OF group mention] at by (simp add: trace_emit)
qed

theorem mention_falls_back_to_admins_witness:
  "admin_tags ''mybot'' three_admins = [''@dave'']
   \<and> fst (tag_all ''mybot'' mention_message (fresh_world\<lparr>administrators := \<lambda>cid. Inr three_admins\<rparr>))
       = Inr ()
   \<and> reply_bodies (trace (snd (tag_all ''mybot'' mention_message
        (fresh_world\<lparr>administrators := \<lambda>cid. Inr three_admins\<rparr>)))) = [''@dave'']"
proof -
  let ?w = "fresh_world\<lparr>administrators := \<lambda>cid. Inr three_admins\<rparr>"
  have stored: "stored_registry ?w = Some []"
    by (simp add: stored_registry_def fresh_world_def)
  have tags: "[''@dave''] =
      map (\<lambda>admin. CHR ''@'' # the (username (user admin)))
        (filter (\<lambda>admin. \<not> is_bot (user admin)
                    \<and> username (user admin) \<noteq> None
                    \<and> username (user admin) \<noteq> Some []
                    \<and> username (user admin) \<noteq> Some ''mybot'') three_admins)"
    by (simp add: three_admins_def)
  have short: "length (join [CHR 0x0A] [''@dave'']) \<le> max_length"
    by (simp add: max_length_def)
  show ?thesis
    using mention_falls_back_to_admins
      [of mention_message "''hey @MyBot tag everyone''" "''mybot''" ?w "[]" three_admins "[''@dave'']",
        OF _ _ _ mention_message_detected stored _ _ tags _ short]
    by (simp add: mention_message_simps fresh_world_simps dict_get_def)
qed

text \<open>
  C8. With no stored member and no eligible administrator, the handler sends one reply,
  the fixed notice, and nothing after it.
\<close>

theorem mention_with_nobody_to_tag:
  assumes group: "chat_type (chat m) \<in> set [''group'', ''supergroup'']"
    and mention: "message_text m = Some txt" "txt \<noteq> []" "str_in (lower bot_username) (lower txt)"
    and stored: "stored_registry w = Some members"
    and empty: "dict_get members (str (chat_id (chat m))) [] = []"
    and admins: "administrators w (chat_id (chat m)) = Inr admins"
    and nobody: "filter (\<lambda>admin. \<not> is_bot (user admin)
                                  \<and> username (user admin) \<noteq> None
                                  \<and> username (user admin) \<noteq> Some []
                                  \<and> username (user admin) \<noteq> Some bot_username) admins = []"
    and accepted: "set (send_script w) \<subseteq> {None}"
  shows "fst (tag_all bot_username m w) = Inr ()
     \<and> trace (snd (tag_all bot_username m w)) =
         trace w @
         [ReadMembersFile, GetChatAdministrators (chat_id (chat m)),
          Reply ''No members or admins with usernames found to tag! Users must send a message to be included.''
            (message_id m) (if is_topic_message m then message_thread_id m else None)]"
proof -
  let ?w2 = "emit (GetChatAdministrators (chat_id (chat m))) (emit ReadMembersFile w)"
  have at: "admin_tags bot_username admins = []"
    unfolding admin_tags_filter nobody by simp
  have st: "stored_tags bot_username members (str (chat_id (chat m))) = []"
    by (simp add: stored_tags_def empty)
  have acc: "set (send_script ?w2) \<subseteq> {None}"
    using accepted by (simp add: send_script_emit)
  have "tag_all_try bot_username m w =
      reply_text m
        ''No members or admins with usernames found to tag! Users must send a message to be included.''
        ?w2"
    using tag_all_try_admins [OF stored st admins] by (simp add: at)
  then show ?thesis
    using tag_all_returned [OF group mention, of w] reply_text_accepted [OF acc, of m]
    by (simp add: trace_emit)
qed

theorem mention_with_nobody_to_tag_witness:
  "fst (tag_all ''mybot'' mention_message fresh_world) = Inr ()
   \<and> reply_bodies (trace (snd (tag_all ''mybot'' mention_message fresh_world)))
       = [''No members or admins with usernames found to tag! Users must send a message to be included.'']"
  using mention_with_nobody_to_tag
      [of mention_message "''hey @MyBot tag everyone''" "''mybot''" fresh_world "[]" "[]",
        OF _ _ _ mention_message_detected stored_registry_fresh_world]
  by (simp add: mention_message_simps fresh_world_simps dict_get_def)

text \<open>
  C9. A stored username that differs from the bot's handle only in letter case is not
  excluded from the tag list: the exclusion compares the handles exactly. A text that
  contains that username is nevertheless a mention, since the detection compares in
  lower case.
\<close>

theorem differently_cased_bot_handle_is_tagged:
  assumes group: "chat_type (chat m) \<in> set [''group'', ''supergroup'']"
    and mention: "message_text m = Some txt" "str_in name txt"
    and cased: "lower name = lower bot_username" "name \<noteq> bot_username"
    and stored: "stored_registry w = Some members"
    and member: "name \<in> set (dict_get members (str (chat_id (chat m))) [])"
    and short: "length (join [CHR 0x0A] (stored_tags bot_username members (str (chat_id (chat m)))))
                  \<le> max_length"
    and accepted: "set (send_script w) \<subseteq> {None}"
  shows "CHR ''@'' # name \<in> set (stored_tags bot_username members (str (chat_id (chat m))))
     \<and> fst (tag_all bot_username m w) = Inr ()
     \<and> reply_bodies (drop (length (trace w)) (trace (snd (tag_all bot_username m w)))) =
         [join [CHR 0x0A] (stored_tags bot_username members (str (chat_id (chat m))))]"
proof -
  let ?tags = "stored_tags bot_username members (str (chat_id (chat m)))"
  have tagged: "CHR ''@'' # name \<in> set ?tags"
    using member cased(2) by (simp add: stored_tags_def)
  then have nonempty: "?tags \<noteq> []" by auto
  have "length name = length bot_username"
    using cased(1) by (metis length_map lower_def)
  then have "name \<noteq> []" using cased(2) by auto
  then have t: "txt \<noteq> []" using mention(2) by (cases "txt") auto
  have detected: "str_in (lower bot_username) (lower txt)"
    using str_in_map [OF mention(2), of lower_char] cased(1) by (simp add: lower_def)
  have "tag_all_try bot_username m w = send_tagged m ?tags (emit ReadMembersFile w)"
    using tag_all_try_stored [OF stored nonempty] .
  also have "\<dots> = (Inr (),
      (emit ReadMembersFile w)\<lparr>send_script := tl (send_script (emit ReadMembersFile w)),
        trace := trace (emit ReadMembersFile w) @
          [Reply (join [CHR 0x0A] ?tags) (message_id m) (if is_topic_message m then message_thread_id m else None),
           LogInfo (''Tagged '' @ str (int (length ?tags)) @ '' members in chat ''
                @ str (chat_id (chat m)))]\<rparr>)"
    using accepted short by (intro send_tagged_short) (simp_all add: send_script_emit)
  finally show ?thesis
    using tag_all_returned [OF group mention(1) t detected] tagged by (simp add: trace_emit)
qed

theorem differently_cased_bot_handle_is_tagged_witness:
  "fst (tag_all ''mybot'' mention_message (world_with [(''123'', [''MyBot'', ''alice''])])) = Inr ()
   \<and> reply_bodies (trace (snd (tag_all ''mybot'' mention_message
        (world_with [(''123'', [''MyBot'', ''alice''])])))) = [''@MyBot'' @ CHR 0x0A # ''@alice'']"
proof -
  let ?members = "[(''123'', [''MyBot'', ''alice''])]"
  have stored: "stored_registry (world_with ?members) = Some ?members"
    by (rule stored_registry_world_with) simp
  have in_text: "str_in ''MyBot'' ''hey @MyBot tag everyone''" by simp
  have cased: "lower ''MyBot'' = lower ''mybot''" by code_simp
  have tags: "stored_tags ''mybot'' ?members ''123'' = [''@MyBot'', ''@alice'']"
    by (simp add: stored_tags_def dict_get_def)
  show ?thesis
    using differently_cased_bot_handle_is_tagged
      [of mention_message "''hey @MyBot tag everyone''" "''MyBot''" "''mybot''"
        "world_with ?members" ?members,
        OF _ _ in_text cased _ stored]
    by (simp add: tags mention_message_simps world_with_simps str_123 dict_get_def max_length_def)
qed

text \<open>
  C10. Handling a message whose text contains the bot's handle, compared in lower case,
  leaves the registry file as it was, writes nothing to it and opens it at most once (the
  load of the mention path): the sender of a mention is not tracked. In the witness the
  sender meets every precondition of tracking, and tracking would have added the sender.
\<close>

theorem mention_never_tracks:
  assumes "message_text m = Some txt" and "str_in (lower bot_username) (lower txt)"
  shows "members_file (snd (tag_all bot_username m w)) = members_file w
     \<and> (\<exists>es. trace (snd (tag_all bot_username m w)) = trace w @ es
           \<and> file_writes es = [] \<and> file_reads es \<le> 1)"
proof (cases "snd (tag_all bot_username m w) = w")
  case True
  then show ?thesis by simp
next
  case False
  then have "quiet (emit ReadMembersFile w) (snd (tag_all bot_username m w))"
    using quiet_tag_all_mention [OF assms, of w] by simp
  then obtain es where "members_file (snd (tag_all bot_username m w)) = members_file w"
    and "trace (snd (tag_all bot_username m w)) = trace w @ ReadMembersFile # es"
    and "file_writes es = []" and "file_reads es = 0"
    by (auto simp: quiet_def emit_def)
  then show ?thesis by simp
qed

theorem mention_never_tracks_witness:
  "members_file (snd (tag_all ''mybot'' mention_message (world_with example_registry)))
     = Some (json_dumps example_registry)
   \<and> file_writes (trace (snd (tag_all ''mybot'' mention_message (world_with example_registry)))) = []
   \<and> stored_registry (snd (track_members mention_message (world_with example_registry)))
       = Some [(''123'', [''alice'', ''bob'', ''carol'', ''zed'']), (''-1001'', [])]"
  using mention_never_tracks
      [of mention_message "''hey @MyBot tag everyone''" "''mybot''" "world_with example_registry",
        OF _ mention_message_detected]
    tracking_the_mention_sender
  by (auto simp: mention_message_simps world_with_simps)

end
